theory Spec2Isabelle
  imports Main "HOL-Library.List_Lexorder" "HOL-Library.Product_Lexorder" "HOL-Library.Sublist"
begin

section \<open>Data model of \<open>AShareData/SQLDBReader.py\<close>\<close>

text \<open>
  A Python \<open>str\<close> is a sequence of Unicode code points and compares lexicographically by
  code point, so a name is a list of code points with the list order. A \<open>DateTime\<close> or
  report-period value is a calendar day (year, month, day) ordered lexicographically;
  the reader only compares such values and reads the month of a report period.
\<close>

type_synonym name = "nat list"
type_synonym date = "nat \<times> nat \<times> nat"

definition month :: "date \<Rightarrow> nat" where
  "month d = fst (snd d)"

text \<open>The three canonical key columns; the last is the report period, U+62A5 U+544A U+671F.\<close>

definition col_DateTime :: name where
  "col_DateTime = [68, 97, 116, 101, 84, 105, 109, 101]"

definition col_ID :: name where
  "col_ID = [73, 68]"

definition col_report_period :: name where
  "col_report_period = [25253, 21578, 26399]"

text \<open>
  Every way the reader raises. The three assertions of the source are told apart by the
  line that raises them; the remaining ones are the library exceptions reached from the
  reader (\<open>KeyError\<close>, \<open>AttributeError\<close>, and the \<open>ValueError\<close>s of \<open>unstack\<close>,
  \<open>pd.concat\<close> and \<open>read_sql_table\<close>). \<open>RangeError\<close> and \<open>NotADate\<close> belong to the
  calendar service, which is not part of the reader.
\<close>

datatype error =
    TableNotInDatabase
  | ColumnNotInTable
  | NoSuchIndustryLevel
  | KeyError
  | AttributeError
  | DuplicateEntries
  | NoObjectsToConcatenate
  | TableNotFound
  | RangeError
  | NotADate

text \<open>The specification's \<open>SchemaError\<close> covers the two assertions of the key check.\<close>

definition SchemaError :: "error \<Rightarrow> bool" where
  "SchemaError e = (e = TableNotInDatabase \<or> e = ColumnNotInTable)"

text \<open>
  A row as \<open>read_sql_table\<close> returns it for the query columns
  \<open>primary_keys + [factor_name]\<close>: the key columns and the factor value, where \<open>None\<close>
  is a missing value (NULL, NaN). A key field whose column the table does not have is
  never read.
\<close>

record 'v row =
  DateTime :: date
  ID :: name
  period :: date
  val :: "'v option"

text \<open>
  A wide frame: row labels, column labels and the cells row by row.
\<close>

record 'v panel =
  index :: "date list"
  columns :: "name list"
  vals :: "'v option list list"

text \<open>
  What the reader holds: the reflected schema (table name to column names), the rows of
  a table for a factor, and the two cached properties \<open>calendar\<close> and \<open>stocks\<close>.
\<close>

record 'v reader =
  meta_tables :: "name \<rightharpoonup> name list"
  sql_table :: "name \<Rightarrow> name \<Rightarrow> 'v row list"
  calendar :: "date list"
  stocks :: "name list"

section \<open>Schema check\<close>

definition check_args_and_get_primary_keys ::
  "(name \<rightharpoonup> name list) \<Rightarrow> name \<Rightarrow> name \<Rightarrow> error + name list" where
  "check_args_and_get_primary_keys tables table_name factor_name =
     (case tables table_name of
        None \<Rightarrow> Inl TableNotInDatabase
      | Some cols \<Rightarrow>
          if factor_name \<notin> set cols then Inl ColumnNotInTable
          else Inr (filter (\<lambda>it. it \<in> set cols) [col_DateTime, col_ID, col_report_period]))"

section \<open>Calendar window\<close>

text \<open>
  Modelled from the spec: \<open>utils.select_dates\<close> is not among the sources. Section 4.1
  gives its contract: the trading dates of the calendar between the two bounds, both
  inclusive when present and open when omitted, in calendar order; it fails with
  \<open>RangeError\<close> if start is after end.
\<close>

definition select_dates :: "date list \<Rightarrow> date option \<Rightarrow> date option \<Rightarrow> error + date list" where
  "select_dates date_list start_date end_date =
     (case (start_date, end_date) of
        (Some s, Some e) \<Rightarrow>
          if e < s then Inl RangeError else Inr (filter (\<lambda>d. s \<le> d \<and> d \<le> e) date_list)
      | (Some s, None) \<Rightarrow> Inr (filter (\<lambda>d. s \<le> d) date_list)
      | (None, Some e) \<Rightarrow> Inr (filter (\<lambda>d. d \<le> e) date_list)
      | (None, None) \<Rightarrow> Inr date_list)"

section \<open>Frame operations used by the reader\<close>

text \<open>
  \<open>unstack\<close> of a long frame indexed by (DateTime, ID): every entry is placed into its
  cell, and a cell that is already taken is the \<open>ValueError\<close> "Index contains duplicate
  entries, cannot reshape". Row and column labels of the result are the sorted distinct
  dates and identifiers; a cell without entry is missing. The following
  \<open>droplevel(None, axis=1)\<close> only removes the unnamed column level of the factor name
  and leaves labels and cells as they are.
\<close>

type_synonym 'v entry = "(date \<times> name) \<times> 'v option"

fun place :: "'v entry list \<Rightarrow> (date \<times> name \<rightharpoonup> 'v option) \<Rightarrow> error + (date \<times> name \<rightharpoonup> 'v option)" where
  "place [] cells = Inr cells"
| "place ((k, v) # es) cells =
     (if cells k \<noteq> None then Inl DuplicateEntries else place es (cells(k \<mapsto> v)))"

definition unstack :: "'v entry list \<Rightarrow> error + 'v panel" where
  "unstack es =
     (case place es Map.empty of
        Inl e \<Rightarrow> Inl e
      | Inr cells \<Rightarrow>
          (let idx = sort (remdups (map (fst \<circ> fst) es));
               cols = sort (remdups (map (snd \<circ> fst) es))
           in Inr \<lparr>index = idx, columns = cols,
                   vals = map (\<lambda>d. map (\<lambda>c. case cells (d, c) of None \<Rightarrow> None | Some v \<Rightarrow> v) cols) idx\<rparr>))"

text \<open>
  \<open>df.reindex(labels)\<close>: the rows of the new labels, a label the frame does not have
  giving a row of missing values.
\<close>

definition reindex :: "date list \<Rightarrow> 'v panel \<Rightarrow> 'v panel" where
  "reindex labels df =
     df\<lparr>index := labels,
        vals := map (\<lambda>d. case map_of (zip (index df) (vals df)) d of
                            Some r \<Rightarrow> r
                          | None \<Rightarrow> replicate (length (columns df)) None) labels\<rparr>"

text \<open>\<open>df.ffill()\<close>: down every column a missing cell takes the last value above it.\<close>

definition fill_row :: "'v option list \<Rightarrow> 'v option list \<Rightarrow> 'v option list" where
  "fill_row prev r = map2 (\<lambda>p c. case c of None \<Rightarrow> p | Some v \<Rightarrow> Some v) prev r"

fun ffill_from :: "'v option list \<Rightarrow> 'v option list list \<Rightarrow> 'v option list list" where
  "ffill_from prev [] = []"
| "ffill_from prev (r # rs) = (let r' = fill_row prev r in r' # ffill_from r' rs)"

definition ffill :: "'v panel \<Rightarrow> 'v panel" where
  "ffill df = df\<lparr>vals := ffill_from (replicate (length (columns df)) None) (vals df)\<rparr>"

text \<open>
  \<open>df.loc[start_date:, :]\<close> on the ascending row labels of a calendar window: the rows
  from the first label that is not before \<open>start_date\<close>; all rows without a start date.
\<close>

definition loc_from :: "date option \<Rightarrow> 'v panel \<Rightarrow> 'v panel" where
  "loc_from start_date df =
     (case start_date of
        None \<Rightarrow> df
      | Some s \<Rightarrow>
          (let n = length (takeWhile (\<lambda>d. d < s) (index df))
           in df\<lparr>index := drop n (index df), vals := drop n (vals df)\<rparr>))"

text \<open>
  \<open>df.reindex(stock_list, axis=1)\<close>: every row read at the new column labels, a label
  the frame does not have giving a missing cell.
\<close>

definition take_columns :: "name list \<Rightarrow> name list \<Rightarrow> 'v option list \<Rightarrow> 'v option list" where
  "take_columns labels cols r =
     map (\<lambda>c. case map_of (zip cols r) c of Some v \<Rightarrow> v | None \<Rightarrow> None) labels"

definition reindex_columns :: "name list \<Rightarrow> 'v panel \<Rightarrow> 'v panel" where
  "reindex_columns labels df =
     df\<lparr>columns := labels, vals := map (take_columns labels (columns df)) (vals df)\<rparr>"

section \<open>\<open>_conform_df\<close>\<close>

text \<open>
  First the rows (the two branches on \<open>ffill\<close>), then the columns. With \<open>ffill\<close> the
  window starts at the smallest row label of the frame. On a frame without rows that
  minimum is \<open>NaT\<close>, which is no date the calendar service is defined on; the model
  reports this call as \<open>NotADate\<close>. An empty or absent \<open>stock_list\<close> is falsy and is
  replaced by \<open>self.stocks\<close>.
\<close>

definition conform_rows ::
  "'v reader \<Rightarrow> 'v panel \<Rightarrow> bool \<Rightarrow> date option \<Rightarrow> date option \<Rightarrow> error + 'v panel" where
  "conform_rows self df ffill_flag start_date end_date =
     (if ffill_flag then
        (if index df = [] then Inl NotADate
         else case select_dates (calendar self) (Some (Min (set (index df)))) end_date of
                Inl e \<Rightarrow> Inl e
              | Inr date_list \<Rightarrow>
                  Inr (loc_from start_date (ffill (reindex (butlast date_list) df))))
      else
        (case select_dates (calendar self) start_date end_date of
           Inl e \<Rightarrow> Inl e
         | Inr date_list \<Rightarrow> Inr (reindex (butlast date_list) df)))"

definition conform_df ::
  "'v reader \<Rightarrow> 'v panel \<Rightarrow> bool \<Rightarrow> date option \<Rightarrow> date option \<Rightarrow> name list \<Rightarrow> error + 'v panel" where
  "conform_df self df ffill_flag start_date end_date stock_list =
     (case conform_rows self df ffill_flag start_date end_date of
        Inl e \<Rightarrow> Inl e
      | Inr df' \<Rightarrow>
          Inr (reindex_columns (if stock_list = [] then stocks self else stock_list) df'))"

section \<open>\<open>get_factor\<close>\<close>

text \<open>
  \<open>str.lower\<close> on the table name; the model lowers the letters A to Z, which is what
  Python does on names written in ASCII and CJK characters.
\<close>

definition lower :: "name \<Rightarrow> name" where
  "lower s = map (\<lambda>c. if 65 \<le> c \<and> c \<le> 90 then c + 32 else c) s"

text \<open>A data query: the table read and the columns asked for.\<close>

type_synonym query = "name \<times> name list"

text \<open>
  What \<open>get_factor\<close> returns: the frame as read when its index is not a \<open>MultiIndex\<close>
  (fewer than two key columns), the conformed panel when the index is (DateTime, ID).
  An index with another pair or with all three key columns is unstacked on its last
  level; that frame is no date-by-security panel and its content is not followed here.
\<close>

datatype 'v frame = Long "'v row list" | Wide "'v panel" | OtherIndex

definition entries :: "'v row list \<Rightarrow> 'v entry list" where
  "entries rows = map (\<lambda>r. ((DateTime r, ID r), val r)) rows"

text \<open>
  The result is paired with the data queries executed, in order. \<open>df.sort_index()\<close>
  discards its result and has no effect.
\<close>

definition get_factor ::
  "'v reader \<Rightarrow> name \<Rightarrow> name \<Rightarrow> bool \<Rightarrow> date option \<Rightarrow> date option \<Rightarrow> name list
     \<Rightarrow> (error + 'v frame) \<times> query list" where
  "get_factor self table_name factor_name ffill_flag start_date end_date stock_list =
     (let table_name = lower table_name in
      case check_args_and_get_primary_keys (meta_tables self) table_name factor_name of
        Inl e \<Rightarrow> (Inl e, [])
      | Inr primary_keys \<Rightarrow>
          (let query_columns = primary_keys @ [factor_name];
               df = sql_table self table_name factor_name;
               queries = [(table_name, query_columns)]
           in if length primary_keys < 2 then (Inr (Long df), queries)
              else if primary_keys = [col_DateTime, col_ID] then
                (case unstack (entries df) of
                   Inl e \<Rightarrow> (Inl e, queries)
                 | Inr wide \<Rightarrow>
                     (case conform_df self wide ffill_flag start_date end_date stock_list of
                        Inl e \<Rightarrow> (Inl e, queries)
                      | Inr p \<Rightarrow> (Inr (Wide p), queries)))
              else (Inr OtherIndex, queries)))"

section \<open>\<open>get_financial_factor\<close>\<close>

text \<open>
  \<open>groupby('report period', as_index=False).last()\<close>: one row per report period, the
  periods ascending; every column holds the last non-missing entry of its group in row
  order, so the key columns are those of the last row of the group and the factor value
  is the last one that is not missing.
\<close>

definition last_valid :: "'v option list \<Rightarrow> 'v option" where
  "last_valid vs = (case filter (\<lambda>v. v \<noteq> None) vs of [] \<Rightarrow> None | w # ws \<Rightarrow> last (w # ws))"

definition groupby_last :: "'v row list \<Rightarrow> 'v row list" where
  "groupby_last rows =
     map (\<lambda>k. let g = filter (\<lambda>r. period r = k) rows
              in \<lparr>DateTime = DateTime (last g), ID = ID (last g), period = k,
                  val = last_valid (map val g)\<rparr>)
         (sort (remdups (map period rows)))"

text \<open>
  The body of the loop over the dates of one security: the rows of the security up to
  \<open>date\<close>, one row per report period, handed to \<open>agg_func\<close> as the factor column indexed
  by (DateTime, ID, report period).
\<close>

definition each_date_data :: "'v row list \<Rightarrow> name \<Rightarrow> date \<Rightarrow> 'v row list" where
  "each_date_data data sec_id date =
     (let id_data = filter (\<lambda>r. ID r = sec_id) data;
          date_id_data = filter (\<lambda>r. DateTime r \<le> date) id_data
      in groupby_last date_id_data)"

definition sec_dates :: "'v row list \<Rightarrow> name \<Rightarrow> date list" where
  "sec_dates data sec_id = sort (remdups (map DateTime (filter (\<lambda>r. ID r = sec_id) data)))"

definition sec_storage :: "('v row list \<Rightarrow> 'v option) \<Rightarrow> 'v row list \<Rightarrow> name \<Rightarrow> 'v entry list" where
  "sec_storage agg_func data sec_id =
     map (\<lambda>date. ((date, sec_id), agg_func (each_date_data data sec_id date)))
         (sec_dates data sec_id)"

text \<open>
  \<open>all_secs\<close> is a Python set; the loop visits it in an order the language does not fix,
  and the output is keyed, so the model visits every identifier once, in a fixed order.
\<close>

definition all_secs :: "'v row list \<Rightarrow> name list \<Rightarrow> name list" where
  "all_secs data stock_list =
     (let secs = remdups (map ID data)
      in if stock_list \<noteq> [] then filter (\<lambda>s. s \<in> set stock_list) secs else secs)"

definition yearly_rows :: "bool \<Rightarrow> 'v row list \<Rightarrow> 'v row list" where
  "yearly_rows yearly data = (if yearly then filter (\<lambda>x. month (period x) = 12) data else data)"

definition storage :: "('v row list \<Rightarrow> 'v option) \<Rightarrow> 'v row list \<Rightarrow> name list \<Rightarrow> 'v entry list" where
  "storage agg_func data stock_list =
     concat (map (sec_storage agg_func data) (all_secs data stock_list))"

text \<open>
  The whole request. A key column the table lacks makes the first access to it raise:
  \<open>x[report period]\<close> and \<open>groupby\<close> a \<open>KeyError\<close>, \<open>data.ID\<close> and \<open>id_data.DateTime\<close> an
  \<open>AttributeError\<close>; the accesses inside the loop are reached only when there is a
  security to visit. What \<open>agg_func\<close> returns is stored under (date, sec_id);
  \<open>pd.concat\<close> of an empty list raises, and the concatenated output is unstacked and
  conformed without forward fill. The model follows the labels and the cells of the
  frames, not the levels of their column index.
\<close>

definition get_financial_factor ::
  "'v reader \<Rightarrow> name \<Rightarrow> name \<Rightarrow> ('v row list \<Rightarrow> 'v option) \<Rightarrow> date option \<Rightarrow> date option
     \<Rightarrow> name list \<Rightarrow> bool \<Rightarrow> (error + 'v panel) \<times> query list" where
  "get_financial_factor self table_name factor_name agg_func start_date end_date stock_list yearly =
     (let table_name = lower table_name in
      case check_args_and_get_primary_keys (meta_tables self) table_name factor_name of
        Inl e \<Rightarrow> (Inl e, [])
      | Inr primary_keys \<Rightarrow>
          (let query_columns = primary_keys @ [factor_name];
               queries = [(table_name, query_columns)];
               data = sql_table self table_name factor_name
           in if yearly \<and> col_report_period \<notin> set primary_keys then (Inl KeyError, queries)
              else if col_ID \<notin> set primary_keys then (Inl AttributeError, queries)
              else
                (let data = yearly_rows yearly data;
                     secs = all_secs data stock_list
                 in if secs \<noteq> [] \<and> col_DateTime \<notin> set primary_keys
                    then (Inl AttributeError, queries)
                    else if secs \<noteq> [] \<and> col_report_period \<notin> set primary_keys
                    then (Inl KeyError, queries)
                    else
                      (let st = storage agg_func data stock_list
                       in if st = [] then (Inl NoObjectsToConcatenate, queries)
                          else
                            (case unstack st of
                               Inl e \<Rightarrow> (Inl e, queries)
                             | Inr df \<Rightarrow>
                                 (conform_df self df False start_date end_date stock_list,
                                  queries))))))"

section \<open>\<open>get_industry\<close>\<close>

text \<open>
  The table of a provider is the provider's name followed by U+884C U+4E1A; the column
  read is U+884C U+4E1A U+540D U+79F0.
\<close>

definition industry_table :: "name \<Rightarrow> name" where
  "industry_table provider = provider @ [34892, 19994]"

definition industry_col_name :: name where
  "industry_col_name = [34892, 19994, 21517, 31216]"

text \<open>
  The translation file maps a table name to the items of a dictionary from category
  name to its names by level; the key \<open>level_N\<close> is represented by the number \<open>N\<close>. The
  loop builds the dictionary for one level and raises \<open>KeyError\<close> at the first category
  without that level.
\<close>

type_synonym translation = "name \<rightharpoonup> (name \<times> (int \<rightharpoonup> name)) list"

fun new_translation :: "(name \<times> (int \<rightharpoonup> name)) list \<Rightarrow> int \<Rightarrow> error + (name \<times> name) list" where
  "new_translation [] level = Inr []"
| "new_translation ((key, v) # items) level =
     (case v level of
        None \<Rightarrow> Inl KeyError
      | Some n \<Rightarrow>
          (case new_translation items level of
             Inl e \<Rightarrow> Inl e
           | Inr m \<Rightarrow> Inr ((key, n) # m)))"

text \<open>\<open>Series.map\<close> with a dictionary: a value that is missing or no key becomes missing.\<close>

definition map_series :: "(name \<times> name) list \<Rightarrow> name row list \<Rightarrow> name row list" where
  "map_series m df =
     map (\<lambda>r. r\<lparr>val := (case val r of None \<Rightarrow> None | Some x \<Rightarrow> map_of m x)\<rparr>) df"

text \<open>
  \<open>INDUSTRY_LEVEL\<close> (from \<open>AShareData.constants\<close>, not among the sources) and the loaded
  translation file are parameters. In the chained comparison of the assertion
  \<open>0 < level\<close> is evaluated first, and \<open>INDUSTRY_LEVEL[provider]\<close> only when it holds.
  \<open>read_sql_table\<close> raises \<open>ValueError\<close> for a table the store does not have and
  \<open>KeyError\<close> for a column the table does not have. As before the model follows the
  labels and the cells of the unstacked frame.
\<close>

definition get_industry ::
  "(name \<rightharpoonup> int) \<Rightarrow> translation \<Rightarrow> name reader \<Rightarrow> name \<Rightarrow> int \<Rightarrow> date option \<Rightarrow> date option
     \<Rightarrow> name list \<Rightarrow> error + name panel" where
  "get_industry industry_level translation self provider level start_date end_date stock_list =
     (if \<not> 0 < level then Inl NoSuchIndustryLevel
      else case industry_level provider of
        None \<Rightarrow> Inl KeyError
      | Some max_level \<Rightarrow>
          if \<not> level \<le> max_level then Inl NoSuchIndustryLevel
          else
            (let table_name = industry_table provider
             in case meta_tables self table_name of
                  None \<Rightarrow> Inl TableNotFound
                | Some cols \<Rightarrow>
                    if \<not> set [col_DateTime, col_ID, industry_col_name] \<subseteq> set cols
                    then Inl KeyError
                    else
                      (let df = sql_table self table_name industry_col_name
                       in case (if level \<noteq> max_level then
                                  (case translation table_name of
                                     None \<Rightarrow> Inl KeyError
                                   | Some items \<Rightarrow>
                                       (case new_translation items level of
                                          Inl e \<Rightarrow> Inl e
                                        | Inr m \<Rightarrow> Inr (map_series m df)))
                                else Inr df) of
                            Inl e \<Rightarrow> Inl e
                          | Inr df \<Rightarrow>
                              (case unstack (entries df) of
                                 Inl e \<Rightarrow> Inl e
                               | Inr wide \<Rightarrow>
                                   conform_df self wide True start_date end_date stock_list))))"

section \<open>Reading a panel and the data of the examples\<close>

text \<open>
  The cell of a frame at a row label and a column label: \<open>None\<close> when the frame has no
  such row or column, \<open>Some None\<close> for a missing value.
\<close>

definition cell :: "'v panel \<Rightarrow> date \<Rightarrow> name \<Rightarrow> 'v option option" where
  "cell df d c =
     (case map_of (zip (index df) (vals df)) d of
        None \<Rightarrow> None
      | Some r \<Rightarrow> map_of (zip (columns df) r) c)"


text \<open>The keys (DateTime, ID) of a long frame.\<close>

definition keys :: "'v row list \<Rightarrow> (date \<times> name) list" where
  "keys rows = map (\<lambda>r. (DateTime r, ID r)) rows"

text \<open>
  The trading calendar of the examples, January 1 to 4, the security \<open>A\<close>, a table \<open>t\<close>
  with the key columns DateTime and ID and the factor column \<open>x\<close>, holding the value 10
  on January 1 and 30 on January 3.
\<close>

definition jan :: "nat \<Rightarrow> date" where
  "jan d = (2024, 1, d)"

definition sec_A :: name where
  "sec_A = [65]"

definition ex_table :: name where
  "ex_table = [116]"

definition ex_factor :: name where
  "ex_factor = [120]"

definition ex_rows :: "int row list" where
  "ex_rows =
     [\<lparr>DateTime = jan 1, ID = sec_A, period = jan 1, val = Some 10\<rparr>,
      \<lparr>DateTime = jan 3, ID = sec_A, period = jan 1, val = Some 30\<rparr>]"

definition ex_reader :: "int reader" where
  "ex_reader =
     \<lparr>meta_tables = [ex_table \<mapsto> [col_DateTime, col_ID, ex_factor]],
      sql_table = (\<lambda>t f. if t = ex_table \<and> f = ex_factor then ex_rows else []),
      calendar = [jan 1, jan 2, jan 3, jan 4],
      stocks = [sec_A]\<rparr>"

definition ex_raw :: "int panel" where
  "ex_raw = \<lparr>index = [jan 1, jan 3], columns = [sec_A], vals = [[Some 10], [Some 30]]\<rparr>"

text \<open>The same table with the row of January 1 stored twice.\<close>

definition dup_reader :: "int reader" where
  "dup_reader = ex_reader\<lparr>sql_table := (\<lambda>t f. hd ex_rows # ex_rows)\<rparr>"

text \<open>
  The report rows of the security \<open>X\<close> for the period 2023Q4: the value 5 observed on
  February 1 and restated to 7 on March 1. \<open>latest\<close> is the aggregator of the example,
  the value of the latest report period (\<open>lambda x: x.iloc[-1]\<close>).
\<close>

definition sec_X :: name where
  "sec_X = [88]"

definition feb1 :: date where
  "feb1 = (2024, 2, 1)"

definition mar1 :: date where
  "mar1 = (2024, 3, 1)"

definition q4 :: date where
  "q4 = (2023, 12, 31)"

definition row_feb :: "int row" where
  "row_feb = \<lparr>DateTime = feb1, ID = sec_X, period = q4, val = Some 5\<rparr>"

definition row_mar :: "int row" where
  "row_mar = \<lparr>DateTime = mar1, ID = sec_X, period = q4, val = Some 7\<rparr>"

definition latest :: "'v row list \<Rightarrow> 'v option" where
  "latest series = (case series of [] \<Rightarrow> None | r # rs \<Rightarrow> val (last (r # rs)))"

definition fin_table :: name where
  "fin_table = [102]"

definition fin_reader :: "int row list \<Rightarrow> int reader" where
  "fin_reader rows =
     \<lparr>meta_tables = [fin_table \<mapsto> [col_DateTime, col_ID, col_report_period, ex_factor]],
      sql_table = (\<lambda>t f. if t = fin_table \<and> f = ex_factor then rows else []),
      calendar = [feb1, mar1],
      stocks = [sec_X]\<rparr>"

text \<open>A provider \<open>P\<close> whose classification has three levels.\<close>

definition provider_P :: name where
  "provider_P = [80]"

definition ex_industry_level :: "name \<rightharpoonup> int" where
  "ex_industry_level = [provider_P \<mapsto> 3]"

definition industry_reader :: "name reader" where
  "industry_reader =
     \<lparr>meta_tables = [industry_table provider_P \<mapsto> [col_DateTime, col_ID, industry_col_name]],
      sql_table = (\<lambda>t f. []),
      calendar = [jan 1, jan 2, jan 3, jan 4],
      stocks = [sec_A]\<rparr>"

section \<open>Schema check: properties\<close>

lemma key_columns_distinct: "distinct [col_DateTime, col_ID, col_report_period]"
  by (simp add: col_DateTime_def col_ID_def col_report_period_def)

lemma check_args_Inl_iff:
  "isl (check_args_and_get_primary_keys tables T C) \<longleftrightarrow>
     (tables T = None \<or> (\<exists>cols. tables T = Some cols \<and> C \<notin> set cols))"
  by (simp add: check_args_and_get_primary_keys_def split: option.splits)

lemma check_args_SchemaError:
  "check_args_and_get_primary_keys tables T C = Inl e \<Longrightarrow> SchemaError e"
  by (auto simp: check_args_and_get_primary_keys_def SchemaError_def split: option.splits if_splits)

lemma subseq_filter_self: "subseq (filter P xs) xs"
  by (induction xs) auto

lemma check_args_Inr:
  assumes "tables T = Some cols" "C \<in> set cols"
  shows "\<exists>ks. check_args_and_get_primary_keys tables T C = Inr ks
            \<and> set ks = {col_DateTime, col_ID, col_report_period} \<inter> set cols
            \<and> subseq ks [col_DateTime, col_ID, col_report_period]"
proof -
  let ?ks = "filter (\<lambda>it. it \<in> set cols) [col_DateTime, col_ID, col_report_period]"
  have "check_args_and_get_primary_keys tables T C = Inr ?ks"
    using assms by (simp add: check_args_and_get_primary_keys_def)
  moreover have "set ?ks = {col_DateTime, col_ID, col_report_period} \<inter> set cols"
    by auto
  moreover have "subseq ?ks [col_DateTime, col_ID, col_report_period]"
    by (rule subseq_filter_self)
  ultimately show ?thesis by blast
qed

lemma get_factor_check_fails:
  "check_args_and_get_primary_keys (meta_tables self) (lower T) C = Inl e \<Longrightarrow>
     get_factor self T C f s e' U = (Inl e, [])"
  by (simp add: get_factor_def)

lemma get_financial_factor_check_fails:
  "check_args_and_get_primary_keys (meta_tables self) (lower T) C = Inl e \<Longrightarrow>
     get_financial_factor self T C agg s e' U y = (Inl e, [])"
  by (simp add: get_financial_factor_def)

text \<open>
  Claim C3. The key check fails exactly when the table is not in the store or the factor
  is not one of its columns, and then with one of the two schema assertions. Otherwise
  it returns the canonical key columns that the table has, as a subsequence of
  (DateTime, ID, report period). When the check fails inside \<open>get_factor\<close> or
  \<open>get_financial_factor\<close>, the request fails with that error and no data query has been
  executed.
\<close>

theorem resolve_keys_schema_check:
  "(isl (check_args_and_get_primary_keys tables T C) \<longleftrightarrow>
      (tables T = None \<or> (\<exists>cols. tables T = Some cols \<and> C \<notin> set cols)))
   \<and> (\<forall>e. check_args_and_get_primary_keys tables T C = Inl e \<longrightarrow> SchemaError e)
   \<and> (\<forall>cols. tables T = Some cols \<and> C \<in> set cols \<longrightarrow>
        (\<exists>ks. check_args_and_get_primary_keys tables T C = Inr ks
            \<and> set ks = {col_DateTime, col_ID, col_report_period} \<inter> set cols
            \<and> subseq ks [col_DateTime, col_ID, col_report_period]))
   \<and> (\<forall>e. check_args_and_get_primary_keys (meta_tables self) (lower T) C = Inl e \<longrightarrow>
        get_factor self T C ffill_flag start_date end_date stock_list = (Inl e, [])
        \<and> get_financial_factor self T C agg_func start_date end_date stock_list yearly
            = (Inl e, []))"
  using check_args_Inl_iff [of tables T C] check_args_SchemaError [of tables T C]
    check_args_Inr [of tables T _ C]
    get_factor_check_fails [of self T C]
    get_financial_factor_check_fails [of self T C]
  by blast

theorem resolve_keys_schema_check_witness:
  "meta_tables ex_reader ex_table = Some [col_DateTime, col_ID, ex_factor]
   \<and> ex_factor \<in> set [col_DateTime, col_ID, ex_factor]
   \<and> check_args_and_get_primary_keys (meta_tables ex_reader) ex_table ex_factor
       = Inr [col_DateTime, col_ID]
   \<and> check_args_and_get_primary_keys (meta_tables ex_reader) (lower [85]) ex_factor
       = Inl TableNotInDatabase
   \<and> SchemaError TableNotInDatabase
   \<and> get_factor ex_reader [85] ex_factor False None None [] = (Inl TableNotInDatabase, [])
   \<and> get_financial_factor ex_reader [85] ex_factor latest None None [] True
       = (Inl TableNotInDatabase, [])"
proof -
  have tab: "meta_tables ex_reader ex_table = Some [col_DateTime, col_ID, ex_factor]"
    by (simp add: ex_reader_def)
  have ok: "check_args_and_get_primary_keys (meta_tables ex_reader) ex_table ex_factor
              = Inr [col_DateTime, col_ID]"
    by (simp add: check_args_and_get_primary_keys_def ex_reader_def ex_factor_def
        col_DateTime_def col_ID_def col_report_period_def)
  have bad: "check_args_and_get_primary_keys (meta_tables ex_reader) (lower [85]) ex_factor
               = Inl TableNotInDatabase"
    by (simp add: check_args_and_get_primary_keys_def ex_reader_def lower_def ex_table_def)
  show ?thesis
    using tab ok bad
      resolve_keys_schema_check [of "meta_tables ex_reader" ex_table ex_factor ex_reader]
      resolve_keys_schema_check [of "meta_tables ex_reader" "[85]" ex_factor ex_reader
        False None None "[]" latest True]
    by (simp add: SchemaError_def)
qed

section \<open>Which errors the parts raise\<close>

lemma select_dates_error: "select_dates ds s e = Inl err \<Longrightarrow> err = RangeError"
  by (auto simp: select_dates_def split: option.splits if_splits)

lemma conform_df_error:
  "conform_df self df f s e U = Inl err \<Longrightarrow> err = RangeError \<or> err = NotADate"
  by (auto simp: conform_df_def conform_rows_def split: if_splits sum.splits
      dest: select_dates_error)

lemma place_error: "place es cells = Inl err \<Longrightarrow> err = DuplicateEntries"
  by (induction es cells rule: place.induct) (auto split: if_splits)

lemma unstack_error: "unstack es = Inl err \<Longrightarrow> err = DuplicateEntries"
  by (auto simp: unstack_def Let_def split: sum.splits dest: place_error)

lemma new_translation_error: "new_translation items level = Inl err \<Longrightarrow> err = KeyError"
  by (induction items level rule: new_translation.induct) (auto split: option.splits sum.splits)

section \<open>Industry level\<close>

lemma get_industry_level_ok:
  assumes "industry_level provider = Some max_level" "0 < level" "level \<le> max_level"
  shows "get_industry industry_level tr self provider level s e U \<noteq> Inl NoSuchIndustryLevel"
proof
  assume bad: "get_industry industry_level tr self provider level s e U = Inl NoSuchIndustryLevel"
  then show False
    using assms
    by (auto simp: get_industry_def Let_def
        split: option.splits if_splits sum.splits
        dest: conform_df_error unstack_error new_translation_error)
qed

lemma get_industry_level_bad:
  assumes "industry_level provider = Some max_level" "level \<le> 0 \<or> max_level < level"
  shows "get_industry industry_level tr self provider level s e U = Inl NoSuchIndustryLevel"
  using assms by (auto simp: get_industry_def)

text \<open>
  Claim C9. For a provider with a maximum level, the industry request fails on the
  level assertion exactly when the level is above that maximum or not positive; level 5
  for the provider \<open>P\<close> with three levels fails so.
\<close>

theorem get_industry_level_error:
  "(industry_level provider = Some max_level \<longrightarrow>
      (get_industry industry_level tr self provider level start_date end_date stock_list
         = Inl NoSuchIndustryLevel
       \<longleftrightarrow> max_level < level \<or> level \<le> 0))
   \<and> get_industry ex_industry_level tr industry_reader provider_P 5 start_date end_date stock_list
       = Inl NoSuchIndustryLevel"
proof -
  have "get_industry ex_industry_level tr industry_reader provider_P 5 start_date end_date
          stock_list = Inl NoSuchIndustryLevel"
    by (rule get_industry_level_bad [where max_level = 3]) (simp_all add: ex_industry_level_def)
  moreover have "industry_level provider = Some max_level \<longrightarrow>
      (get_industry industry_level tr self provider level start_date end_date stock_list
         = Inl NoSuchIndustryLevel
       \<longleftrightarrow> max_level < level \<or> level \<le> 0)"
    using get_industry_level_ok [of industry_level provider max_level level]
      get_industry_level_bad [of industry_level provider max_level level]
    by (metis not_le_imp_less)
  ultimately show ?thesis by blast
qed

theorem get_industry_level_error_witness:
  "ex_industry_level provider_P = Some 3
   \<and> get_industry ex_industry_level Map.empty industry_reader provider_P 0 None None []
       = Inl NoSuchIndustryLevel
   \<and> get_industry ex_industry_level Map.empty industry_reader provider_P 3 None None []
       \<noteq> Inl NoSuchIndustryLevel"
  using get_industry_level_error [of ex_industry_level provider_P 3 Map.empty industry_reader 0
      None None "[]"]
    get_industry_level_error [of ex_industry_level provider_P 3 Map.empty industry_reader 3
      None None "[]"]
  by (simp add: ex_industry_level_def)

section \<open>Reshaping a long frame\<close>

lemma place_spec:
  "place es cells =
     (if distinct (map fst es) \<and> (\<forall>k \<in> fst ` set es. cells k = None)
      then Inr (cells ++ map_of es) else Inl DuplicateEntries)"
proof (induction es arbitrary: cells)
  case Nil
  show ?case by simp
next
  case (Cons x es)
  obtain k v where x: "x = (k, v)" by (cases x)
  show ?case
  proof (cases "cells k = None")
    case False
    then show ?thesis by (auto simp: x)
  next
    case True
    have upd: "cells(k \<mapsto> v) ++ map_of es = cells ++ map_of ((k, v) # es)"
      if "k \<notin> fst ` set es"
    proof -
      have "k \<notin> dom (map_of es)"
        using that by (simp add: dom_map_of_conv_image_fst)
      then have "cells(k \<mapsto> v) ++ map_of es = (cells ++ map_of es)(k \<mapsto> v)"
        by (rule map_add_upd_left)
      then show ?thesis by simp
    qed
    have step: "place (x # es) cells = place es (cells(k \<mapsto> v))"
      using True by (simp add: x)
    show ?thesis
    proof (cases "k \<in> fst ` set es")
      case inside: True
      then have "\<not> (\<forall>k' \<in> fst ` set es. (cells(k \<mapsto> v)) k' = None)"
        by (metis fun_upd_same option.distinct(1))
      then have "place es (cells(k \<mapsto> v)) = Inl DuplicateEntries"
        by (simp only: Cons.IH [of "cells(k \<mapsto> v)"] simp_thms if_False)
      moreover have "\<not> distinct (map fst (x # es))"
        using inside by (simp add: x)
      ultimately show ?thesis
        unfolding step by auto
    next
      case outside: False
      then have "(\<forall>k' \<in> fst ` set es. (cells(k \<mapsto> v)) k' = None)
                   \<longleftrightarrow> (\<forall>k' \<in> fst ` set es. cells k' = None)"
        by (metis fun_upd_other)
      then show ?thesis
        using outside True upd [OF outside]
        by (simp add: step Cons.IH x del: fun_upd_apply map_of.simps)
    qed
  qed
qed

lemma unstack_spec:
  "unstack es =
     (if distinct (map fst es)
      then Inr \<lparr>index = sort (remdups (map (fst \<circ> fst) es)),
                columns = sort (remdups (map (snd \<circ> fst) es)),
                vals = map (\<lambda>d. map (\<lambda>c. case map_of es (d, c) of None \<Rightarrow> None | Some v \<Rightarrow> v)
                                     (sort (remdups (map (snd \<circ> fst) es))))
                           (sort (remdups (map (fst \<circ> fst) es)))\<rparr>
      else Inl DuplicateEntries)"
  by (simp add: unstack_def place_spec Let_def)

lemma cell_of_maps:
  "cell \<lparr>index = idx, columns = cols, vals = map (\<lambda>d. map (f d) cols) idx\<rparr> d c =
     (if d \<in> set idx \<and> c \<in> set cols then Some (f d c) else None)"
  by (simp add: cell_def map_of_zip_map)

lemma map_fst_entries: "map fst (entries rows) = keys rows"
  by (simp add: entries_def keys_def)

lemma map_of_entries:
  "distinct (keys rows) \<Longrightarrow> r \<in> set rows \<Longrightarrow> map_of (entries rows) (DateTime r, ID r) = Some (val r)"
proof (rule map_of_is_SomeI)
  assume "distinct (keys rows)"
  then show "distinct (map fst (entries rows))"
    by (simp only: map_fst_entries)
next
  assume "r \<in> set rows"
  then show "((DateTime r, ID r), val r) \<in> set (entries rows)"
    by (auto simp: entries_def)
qed

lemma map_of_entries_None:
  "(d, c) \<notin> set (keys rows) \<Longrightarrow> map_of (entries rows) (d, c) = None"
proof -
  assume "(d, c) \<notin> set (keys rows)"
  then have "(d, c) \<notin> fst ` set (entries rows)"
    by (simp add: map_fst_entries [symmetric])
  then show ?thesis
    by (simp only: map_of_eq_None_iff not_False_eq_True)
qed

lemma unstack_entries_pivot:
  assumes "distinct (keys rows)"
  shows "\<exists>p. unstack (entries rows) = Inr p
           \<and> index p = sort (remdups (map DateTime rows))
           \<and> columns p = sort (remdups (map ID rows))
           \<and> (\<forall>r \<in> set rows. cell p (DateTime r) (ID r) = Some (val r))
           \<and> (\<forall>d \<in> set (index p). \<forall>c \<in> set (columns p).
                 (d, c) \<notin> set (keys rows) \<longrightarrow> cell p d c = Some None)"
proof -
  let ?idx = "sort (remdups (map (fst \<circ> fst) (entries rows)))"
  let ?cols = "sort (remdups (map (snd \<circ> fst) (entries rows)))"
  let ?f = "\<lambda>d c. case map_of (entries rows) (d, c) of None \<Rightarrow> None | Some v \<Rightarrow> v"
  let ?p = "\<lparr>index = ?idx, columns = ?cols, vals = map (\<lambda>d. map (?f d) ?cols) ?idx\<rparr>"
  have idx: "?idx = sort (remdups (map DateTime rows))"
    by (simp add: entries_def comp_def)
  have cols: "?cols = sort (remdups (map ID rows))"
    by (simp add: entries_def comp_def)
  have un: "unstack (entries rows) = Inr ?p"
    using assms by (simp add: unstack_spec map_fst_entries)
  have present: "cell ?p (DateTime r) (ID r) = Some (val r)" if "r \<in> set rows" for r
  proof -
    have "DateTime r \<in> set ?idx" "ID r \<in> set ?cols"
      using that by (simp_all add: idx cols)
    then show ?thesis
      using map_of_entries [OF assms that] by (simp only: cell_of_maps) simp
  qed
  have absent: "cell ?p d c = Some None"
    if "d \<in> set ?idx" "c \<in> set ?cols" "(d, c) \<notin> set (keys rows)" for d c
    using that map_of_entries_None [of d c rows] by (simp only: cell_of_maps) simp
  show ?thesis
    using un idx cols present absent
    by (intro exI [of _ ?p]) (simp del: set_sort set_remdups set_map)
qed

lemma get_factor_duplicates:
  assumes "check_args_and_get_primary_keys (meta_tables self) (lower T) C = Inr [col_DateTime, col_ID]"
    and "\<not> distinct (keys (sql_table self (lower T) C))"
  shows "fst (get_factor self T C f s e U) = Inl DuplicateEntries"
  using assms by (simp add: get_factor_def unstack_spec map_fst_entries)

text \<open>
  Claim C8. Unstacking a long frame keyed by (DateTime, ID) fails with the duplicate
  entries error exactly when some key occurs in more than one row, and \<open>get_factor\<close>
  fails with it on such a table. When every key is unique the result is the pivot: the
  rows are the sorted dates, the columns the sorted identifiers, the cell of every
  input row holds its value and every other cell is missing.
\<close>

theorem unstack_pivot_or_duplicate:
  "(unstack (entries rows) = Inl DuplicateEntries \<longleftrightarrow> \<not> distinct (keys rows))
   \<and> (distinct (keys rows) \<longrightarrow>
        (\<exists>p. unstack (entries rows) = Inr p
           \<and> index p = sort (remdups (map DateTime rows))
           \<and> columns p = sort (remdups (map ID rows))
           \<and> (\<forall>r \<in> set rows. cell p (DateTime r) (ID r) = Some (val r))
           \<and> (\<forall>d \<in> set (index p). \<forall>c \<in> set (columns p).
                 (d, c) \<notin> set (keys rows) \<longrightarrow> cell p d c = Some None)))
   \<and> (check_args_and_get_primary_keys (meta_tables self) (lower T) C = Inr [col_DateTime, col_ID]
        \<and> \<not> distinct (keys (sql_table self (lower T) C)) \<longrightarrow>
        fst (get_factor self T C ffill_flag start_date end_date stock_list) = Inl DuplicateEntries)"
proof -
  have "unstack (entries rows) = Inl DuplicateEntries \<longleftrightarrow> \<not> distinct (keys rows)"
    by (simp add: unstack_spec map_fst_entries)
  then show ?thesis
    using unstack_entries_pivot [of rows] get_factor_duplicates [of self T C]
    by blast
qed

theorem unstack_pivot_or_duplicate_witness:
  "distinct (keys ex_rows)
   \<and> unstack (entries ex_rows) = Inr ex_raw
   \<and> cell ex_raw (jan 3) sec_A = Some (Some 30)
   \<and> check_args_and_get_primary_keys (meta_tables dup_reader) (lower ex_table) ex_factor
       = Inr [col_DateTime, col_ID]
   \<and> \<not> distinct (keys (sql_table dup_reader (lower ex_table) ex_factor))
   \<and> unstack (entries (sql_table dup_reader (lower ex_table) ex_factor)) = Inl DuplicateEntries
   \<and> fst (get_factor dup_reader ex_table ex_factor False None None []) = Inl DuplicateEntries"
proof -
  have d: "distinct (keys ex_rows)"
    by (simp add: keys_def ex_rows_def jan_def)
  have u: "unstack (entries ex_rows) = Inr ex_raw"
    by (simp add: unstack_spec entries_def ex_rows_def ex_raw_def jan_def sec_A_def)
  have c: "cell ex_raw (jan 3) sec_A = Some (Some 30)"
    by (simp add: cell_def ex_raw_def jan_def)
  have k: "check_args_and_get_primary_keys (meta_tables dup_reader) (lower ex_table) ex_factor
             = Inr [col_DateTime, col_ID]"
    by (simp add: check_args_and_get_primary_keys_def dup_reader_def ex_reader_def lower_def
        ex_table_def ex_factor_def col_DateTime_def col_ID_def col_report_period_def)
  have n: "\<not> distinct (keys (sql_table dup_reader (lower ex_table) ex_factor))"
    by (simp add: keys_def dup_reader_def ex_rows_def)
  show ?thesis
    using d u c k n
      unstack_pivot_or_duplicate [of ex_rows dup_reader ex_table ex_factor False None None "[]"]
      unstack_pivot_or_duplicate [of "sql_table dup_reader (lower ex_table) ex_factor"
        dup_reader ex_table ex_factor False None None "[]"]
    by simp
qed

section \<open>No security to visit\<close>

lemma all_secs_Nil_iff:
  "all_secs data stock_list = [] \<longleftrightarrow>
     data = [] \<or> (stock_list \<noteq> [] \<and> ID ` set data \<inter> set stock_list = {})"
proof -
  have "filter (\<lambda>s. s \<in> set stock_list) (remdups (map ID data)) = []
          \<longleftrightarrow> ID ` set data \<inter> set stock_list = {}"
    by (auto simp: filter_empty_conv)
  then show ?thesis
    by (auto simp: all_secs_def Let_def)
qed

lemma storage_no_secs: "all_secs data stock_list = [] \<Longrightarrow> storage agg_func data stock_list = []"
  by (simp add: storage_def)

lemma get_financial_factor_no_secs:
  assumes "all_secs (yearly_rows yearly (sql_table self (lower T) C)) stock_list = []"
  shows "isl (fst (get_financial_factor self T C agg_func start_date end_date stock_list yearly))"
    and "check_args_and_get_primary_keys (meta_tables self) (lower T) C
           = Inr [col_DateTime, col_ID, col_report_period] \<Longrightarrow>
         fst (get_financial_factor self T C agg_func start_date end_date stock_list yearly)
           = Inl NoObjectsToConcatenate"
  using assms storage_no_secs [OF assms, of agg_func]
  by (auto simp: get_financial_factor_def Let_def split: sum.splits)

text \<open>
  Claim C10. When the rows left by the yearly filter are none, or the stock list is not
  empty and shares no security with them, the loop produces no output and
  \<open>get_financial_factor\<close> raises instead of returning a panel; on a table that has the
  three key columns the error is that of \<open>pd.concat\<close> on an empty list.
\<close>

theorem get_financial_factor_nothing_to_concatenate:
  assumes "data = yearly_rows yearly (sql_table self (lower T) C)"
    and "data = [] \<or> (stock_list \<noteq> [] \<and> ID ` set data \<inter> set stock_list = {})"
  shows "isl (fst (get_financial_factor self T C agg_func start_date end_date stock_list yearly))
    \<and> (check_args_and_get_primary_keys (meta_tables self) (lower T) C
          = Inr [col_DateTime, col_ID, col_report_period] \<longrightarrow>
        fst (get_financial_factor self T C agg_func start_date end_date stock_list yearly)
          = Inl NoObjectsToConcatenate)"
proof -
  have "all_secs (yearly_rows yearly (sql_table self (lower T) C)) stock_list = []"
    using assms by (simp only: all_secs_Nil_iff)
  then show ?thesis
    using get_financial_factor_no_secs [of yearly self T C stock_list agg_func start_date end_date]
    by blast
qed

theorem get_financial_factor_nothing_to_concatenate_witness:
  "[row_feb, row_mar] = yearly_rows True (sql_table (fin_reader [row_feb, row_mar]) (lower fin_table) ex_factor)
   \<and> [sec_A] \<noteq> [] \<and> ID ` set [row_feb, row_mar] \<inter> set [sec_A] = {}
   \<and> check_args_and_get_primary_keys (meta_tables (fin_reader [row_feb, row_mar])) (lower fin_table)
        ex_factor = Inr [col_DateTime, col_ID, col_report_period]
   \<and> fst (get_financial_factor (fin_reader [row_feb, row_mar]) fin_table ex_factor latest
            None None [sec_A] True) = Inl NoObjectsToConcatenate"
proof -
  have a: "[row_feb, row_mar]
             = yearly_rows True (sql_table (fin_reader [row_feb, row_mar]) (lower fin_table) ex_factor)"
    by (simp add: yearly_rows_def fin_reader_def lower_def fin_table_def row_feb_def row_mar_def
        q4_def month_def)
  have b: "ID ` set [row_feb, row_mar] \<inter> set [sec_A] = {}"
    by (simp add: row_feb_def row_mar_def sec_A_def sec_X_def)
  have c: "check_args_and_get_primary_keys (meta_tables (fin_reader [row_feb, row_mar]))
             (lower fin_table) ex_factor = Inr [col_DateTime, col_ID, col_report_period]"
    by (simp add: check_args_and_get_primary_keys_def fin_reader_def lower_def fin_table_def)
  show ?thesis
    using a b c
      get_financial_factor_nothing_to_concatenate [of "[row_feb, row_mar]" True
        "fin_reader [row_feb, row_mar]" fin_table ex_factor "[sec_A]" latest None None]
    by simp
qed

section \<open>Shape of a conformed panel\<close>

lemma length_ffill_from: "length (ffill_from prev rows) = length rows"
  by (induction rows arbitrary: prev) (simp_all add: Let_def)

lemma conform_rows_shape:
  assumes "conform_rows self df f s e = Inr df'"
  shows "columns df' = columns df" and "length (vals df') = length (index df')"
  using assms
  by (auto simp: conform_rows_def reindex_def ffill_def loc_from_def Let_def length_ffill_from
      split: if_splits sum.splits option.splits)

lemma conform_df_columns:
  assumes "conform_df self df f s e U = Inr q"
  obtains df' where "conform_rows self df f s e = Inr df'"
    and "q = reindex_columns (if U = [] then stocks self else U) df'"
  using assms by (auto simp: conform_df_def split: sum.splits)

lemma cell_reindex_columns_absent:
  assumes "length (vals df') = length (index df')" "d \<in> set (index df')"
    "c \<in> set L" "c \<notin> set (columns df')"
  shows "cell (reindex_columns L df') d c = Some None"
proof -
  let ?pick = "\<lambda>r c. case map_of (zip (columns df') r) c of Some v \<Rightarrow> v | None \<Rightarrow> None"
  have len: "length (index df') = length (map (take_columns L (columns df')) (vals df'))"
    using assms(1) by simp
  obtain row where
    row: "map_of (zip (index df') (map (take_columns L (columns df')) (vals df'))) d = Some row"
    using map_of_zip_is_Some [OF len, of d] assms(2) by blast
  then have "row \<in> set (map (take_columns L (columns df')) (vals df'))"
    by (meson map_of_SomeD set_zip_rightD)
  then obtain r where r: "row = map (?pick r) L"
    by (auto simp: take_columns_def)
  have "map_of (zip (columns df') r) c = None"
    using assms(4) by (meson map_of_eq_None_iff set_zip_leftD image_iff surjective_pairing
        not_None_eq map_of_SomeD)
  then have "?pick r c = None" by simp
  then have "map_of (zip L row) c = Some None"
    using assms(3) by (simp add: r map_of_zip_map)
  then show ?thesis
    using row by (simp add: cell_def reindex_columns_def)
qed

text \<open>
  Claim C7, as the code has it. An empty security universe is replaced by the full list
  of known securities, so conforming with it is conforming with \<open>self.stocks\<close>; the
  universe never decides whether conforming fails. For a non-empty universe the columns
  of the result are the universe in its order, so a column outside the universe is
  dropped, and a security the panel does not have is missing in every row.
\<close>

theorem conform_df_universe:
  "conform_df self df ffill_flag start_date end_date [] =
     conform_df self df ffill_flag start_date end_date (stocks self)
   \<and> (isl (conform_df self df ffill_flag start_date end_date stock_list)
        \<longleftrightarrow> isl (conform_df self df ffill_flag start_date end_date []))
   \<and> (\<forall>q. stock_list \<noteq> [] \<and>
          conform_df self df ffill_flag start_date end_date stock_list = Inr q \<longrightarrow>
          columns q = stock_list
          \<and> (\<forall>d \<in> set (index q). \<forall>c \<in> set stock_list.
                c \<notin> set (columns df) \<longrightarrow> cell q d c = Some None))"
proof -
  have a: "conform_df self df ffill_flag start_date end_date [] =
             conform_df self df ffill_flag start_date end_date (stocks self)"
    by (simp add: conform_df_def)
  have b: "isl (conform_df self df ffill_flag start_date end_date stock_list)
             \<longleftrightarrow> isl (conform_df self df ffill_flag start_date end_date [])"
    by (simp add: conform_df_def split: sum.splits)
  have c: "columns q = stock_list
           \<and> (\<forall>d \<in> set (index q). \<forall>c \<in> set stock_list.
                 c \<notin> set (columns df) \<longrightarrow> cell q d c = Some None)"
    if ne: "stock_list \<noteq> []"
      and q: "conform_df self df ffill_flag start_date end_date stock_list = Inr q" for q
  proof -
    obtain df' where rows: "conform_rows self df ffill_flag start_date end_date = Inr df'"
      and q': "q = reindex_columns stock_list df'"
      using conform_df_columns [OF q] ne by metis
    have cols: "columns q = stock_list" and idx: "index q = index df'"
      by (simp_all add: q' reindex_columns_def)
    show ?thesis
      using cell_reindex_columns_absent [of df' _ _ stock_list] conform_rows_shape [OF rows]
      by (simp add: cols idx q' [symmetric])
  qed
  show ?thesis
    using a b c by blast
qed

theorem conform_df_universe_witness:
  "[sec_X] \<noteq> []
   \<and> conform_df ex_reader ex_raw False None None [sec_X]
       = Inr \<lparr>index = [jan 1, jan 2, jan 3], columns = [sec_X], vals = [[None], [None], [None]]\<rparr>
   \<and> sec_X \<notin> set (columns ex_raw)
   \<and> cell \<lparr>index = [jan 1, jan 2, jan 3], columns = [sec_X], vals = [[None], [None], [None :: int option]]\<rparr>
        (jan 2) sec_X = Some None"
proof -
  have r: "conform_df ex_reader ex_raw False None None [sec_X]
       = Inr \<lparr>index = [jan 1, jan 2, jan 3], columns = [sec_X], vals = [[None], [None], [None]]\<rparr>"
    by (simp add: conform_df_def conform_rows_def select_dates_def ex_reader_def ex_raw_def
        reindex_def reindex_columns_def take_columns_def jan_def sec_X_def sec_A_def)
  have n: "sec_X \<notin> set (columns ex_raw)"
    by (simp add: ex_raw_def sec_X_def sec_A_def)
  show ?thesis
    using r n
      conform_df_universe [of ex_reader ex_raw False None None "[sec_X]"]
    by simp
qed

text \<open>
  The claim as written asks for zero columns on an empty universe; the reader of the
  example knows the security \<open>A\<close>, and the result has the column \<open>A\<close>.
\<close>

theorem conform_df_empty_universe_counterexample:
  "conform_df ex_reader ex_raw False None None []
     = Inr \<lparr>index = [jan 1, jan 2, jan 3], columns = [sec_A],
            vals = [[Some 10], [None], [Some 30]]\<rparr>
   \<and> conform_df ex_reader ex_raw False None None []
       \<noteq> Inr \<lparr>index = [jan 1, jan 2, jan 3], columns = [], vals = [[], [], []]\<rparr>"
  by (simp add: conform_df_def conform_rows_def select_dates_def ex_reader_def ex_raw_def
      reindex_def reindex_columns_def take_columns_def jan_def)

section \<open>Row axis of a conformed panel\<close>

lemma select_dates_distinct:
  "distinct ds \<Longrightarrow> select_dates ds s e = Inr date_list \<Longrightarrow> distinct date_list"
  by (auto simp: select_dates_def split: option.splits if_splits)

lemma last_notin_butlast: "distinct xs \<Longrightarrow> xs \<noteq> [] \<Longrightarrow> last xs \<notin> set (butlast xs)"
proof -
  assume d: "distinct xs" and ne: "xs \<noteq> []"
  have "distinct (butlast xs @ [last xs])"
    using d ne by simp
  then show ?thesis
    by (simp only: distinct_append) simp
qed

lemma index_loc_from:
  "index (loc_from start_date df) =
     (case start_date of None \<Rightarrow> index df | Some s \<Rightarrow> dropWhile (\<lambda>d. d < s) (index df))"
  by (simp add: loc_from_def Let_def dropWhile_eq_drop split: option.splits)

lemma conform_rows_index:
  assumes "conform_rows self df ffill_flag start_date end_date = Inr df'"
  shows "\<exists>date_list.
           select_dates (calendar self)
             (if ffill_flag then Some (Min (set (index df))) else start_date) end_date = Inr date_list
           \<and> index df' =
               (if ffill_flag
                then (case start_date of
                        None \<Rightarrow> butlast date_list
                      | Some s \<Rightarrow> dropWhile (\<lambda>d. d < s) (butlast date_list))
                else butlast date_list)"
proof (cases ffill_flag)
  case True
  then obtain date_list where
    w: "select_dates (calendar self) (Some (Min (set (index df)))) end_date = Inr date_list"
    and r: "df' = loc_from start_date (ffill (reindex (butlast date_list) df))"
    using assms by (auto simp: conform_rows_def split: if_splits sum.splits)
  have "index (ffill (reindex (butlast date_list) df)) = butlast date_list"
    by (simp add: ffill_def reindex_def)
  then show ?thesis
    using True w by (simp add: r index_loc_from split: option.splits)
next
  case False
  then obtain date_list where
    w: "select_dates (calendar self) start_date end_date = Inr date_list"
    and r: "df' = reindex (butlast date_list) df"
    using assms by (auto simp: conform_rows_def split: sum.splits)
  show ?thesis
    using False w by (simp add: r reindex_def)
qed

text \<open>
  Claim C4, as the code has it. The rows of a conformed panel come from \<open>date_list[:-1]\<close>
  of the resolved window: they are exactly \<open>date_list[:-1]\<close> without forward fill, and
  with forward fill the part of \<open>date_list[:-1]\<close> from the first date that is not before
  \<open>start_date\<close>. On a calendar without repeated dates the last date of the window is
  never a row of the result.
\<close>

theorem conform_df_row_axis:
  assumes "conform_df self df ffill_flag start_date end_date stock_list = Inr q"
  shows "\<exists>date_list.
           select_dates (calendar self)
             (if ffill_flag then Some (Min (set (index df))) else start_date) end_date = Inr date_list
           \<and> index q =
               (if ffill_flag
                then (case start_date of
                        None \<Rightarrow> butlast date_list
                      | Some s \<Rightarrow> dropWhile (\<lambda>d. d < s) (butlast date_list))
                else butlast date_list)
           \<and> (distinct (calendar self) \<and> date_list \<noteq> [] \<longrightarrow> last date_list \<notin> set (index q))"
proof -
  obtain df' where rows: "conform_rows self df ffill_flag start_date end_date = Inr df'"
    and q: "q = reindex_columns (if stock_list = [] then stocks self else stock_list) df'"
    using conform_df_columns [OF assms] by blast
  have iq: "index q = index df'"
    by (simp add: q reindex_columns_def)
  obtain date_list where
    w: "select_dates (calendar self)
          (if ffill_flag then Some (Min (set (index df))) else start_date) end_date = Inr date_list"
    and i: "index df' =
               (if ffill_flag
                then (case start_date of
                        None \<Rightarrow> butlast date_list
                      | Some s \<Rightarrow> dropWhile (\<lambda>d. d < s) (butlast date_list))
                else butlast date_list)"
    using conform_rows_index [OF rows] by blast
  have sub: "set (index df') \<subseteq> set (butlast date_list)"
    by (auto simp: i split: option.splits dest: set_dropWhileD)
  have "last date_list \<notin> set (index q)" if "distinct (calendar self)" "date_list \<noteq> []"
  proof -
    have "distinct date_list"
      using that(1) w by (rule select_dates_distinct)
    then have "last date_list \<notin> set (butlast date_list)"
      using that(2) by (rule last_notin_butlast)
    then show ?thesis
      using sub iq by auto
  qed
  then show ?thesis
    using w i iq by auto
qed

lemma conform_df_default_universe:
  "conform_df self df f s e [] = conform_df self df f s e (stocks self)"
  by (simp add: conform_df_def)

lemma ex_window:
  "select_dates (calendar ex_reader) (Some (Min (set (index ex_raw)))) (Some (jan 4))
     = Inr [jan 1, jan 2, jan 3, jan 4]"
  by (simp add: select_dates_def ex_reader_def ex_raw_def jan_def)

lemma ex_conform:
  "conform_df ex_reader ex_raw True (Some (jan 2)) (Some (jan 4)) [sec_A]
     = Inr \<lparr>index = [jan 2, jan 3], columns = [sec_A], vals = [[Some 10], [Some 30]]\<rparr>"
  by (simp add: conform_df_def conform_rows_def select_dates_def ex_reader_def ex_raw_def
      reindex_def ffill_def fill_row_def loc_from_def reindex_columns_def take_columns_def
      jan_def sec_A_def Let_def)

theorem conform_df_row_axis_witness:
  "conform_df ex_reader ex_raw True (Some (jan 2)) (Some (jan 4)) [sec_A]
     = Inr \<lparr>index = [jan 2, jan 3], columns = [sec_A], vals = [[Some 10], [Some 30]]\<rparr>
   \<and> distinct (calendar ex_reader)
   \<and> [jan 2, jan 3] = dropWhile (\<lambda>d. d < jan 2) (butlast [jan 1, jan 2, jan 3, jan 4])
   \<and> jan 4 \<notin> set [jan 2, jan 3]"
proof -
  have d: "distinct (calendar ex_reader)"
    by (simp add: ex_reader_def jan_def)
  have w: "[jan 2, jan 3] = dropWhile (\<lambda>d. d < jan 2) (butlast [jan 1, jan 2, jan 3, jan 4])"
    by (simp add: jan_def)
  show ?thesis
    using conform_df_row_axis [OF ex_conform] ex_window ex_conform d w
    by (simp add: jan_def)
qed

text \<open>
  The claim as written makes the rows all of \<open>date_list[:-1]\<close>; with forward fill and a
  start date after the first row of the panel they are fewer.
\<close>

theorem conform_df_row_axis_counterexample:
  "select_dates (calendar ex_reader) (Some (Min (set (index ex_raw)))) (Some (jan 4))
     = Inr [jan 1, jan 2, jan 3, jan 4]
   \<and> conform_df ex_reader ex_raw True (Some (jan 2)) (Some (jan 4)) [sec_A]
       = Inr \<lparr>index = [jan 2, jan 3], columns = [sec_A], vals = [[Some 10], [Some 30]]\<rparr>
   \<and> [jan 2, jan 3] \<noteq> butlast [jan 1, jan 2, jan 3, jan 4]"
  using ex_window ex_conform by (simp add: jan_def)

text \<open>
  Claim C5, as the code has it. On the calendar January 1 to 4, with the values 10 on
  January 1 and 30 on January 3 for \<open>A\<close>, conforming with forward fill from January 2 to
  January 4 gives the rows January 2 and 3 with the values 10 and 30: January 4 is the
  last date of the window and is left out.
\<close>

theorem conform_df_forward_fill_example:
  "conform_df ex_reader ex_raw True (Some (jan 2)) (Some (jan 4)) [sec_A]
     = Inr \<lparr>index = [jan 2, jan 3], columns = [sec_A], vals = [[Some 10], [Some 30]]\<rparr>
   \<and> conform_df ex_reader ex_raw True (Some (jan 2)) (Some (jan 4)) []
     = Inr \<lparr>index = [jan 2, jan 3], columns = [sec_A], vals = [[Some 10], [Some 30]]\<rparr>"
proof -
  have "stocks ex_reader = [sec_A]"
    by (simp add: ex_reader_def)
  then show ?thesis
    using ex_conform by (simp add: conform_df_default_universe)
qed

theorem conform_df_forward_fill_example_counterexample:
  "conform_df ex_reader ex_raw True (Some (jan 2)) (Some (jan 4)) [sec_A]
     \<noteq> Inr \<lparr>index = [jan 2, jan 3, jan 4], columns = [sec_A],
            vals = [[Some 10], [Some 30], [Some 30]]\<rparr>"
  using ex_conform by simp

section \<open>Point-in-time values\<close>

lemma map_of_dates:
  "map_of (map (\<lambda>date. ((date, s), g date)) ds) (d, sec) =
     (if s = sec \<and> d \<in> set ds then Some (g d) else None)"
  by (induction ds) auto

lemma map_of_sec_storage:
  "map_of (sec_storage agg data s) (d, sec) =
     (if s = sec \<and> d \<in> set (sec_dates data sec)
      then Some (agg (each_date_data data sec d)) else None)"
  unfolding sec_storage_def by (simp only: map_of_dates) auto

lemma map_of_concat_sec_storage:
  "map_of (concat (map (sec_storage agg data) secs)) (d, sec) =
     (if sec \<in> set secs \<and> d \<in> set (sec_dates data sec)
      then Some (agg (each_date_data data sec d)) else None)"
  by (induction secs) (auto simp: map_of_sec_storage map_add_def)

lemma map_of_storage:
  "map_of (storage agg data U) (d, sec) =
     (if sec \<in> set (all_secs data U) \<and> d \<in> set (sec_dates data sec)
      then Some (agg (each_date_data data sec d)) else None)"
  unfolding storage_def by (rule map_of_concat_sec_storage)

lemma storage_key_iff:
  "(d, sec) \<in> fst ` set (storage agg data U) \<longleftrightarrow>
     sec \<in> set (all_secs data U) \<and> d \<in> set (sec_dates data sec)"
proof -
  have "(d, sec) \<in> fst ` set (storage agg data U) \<longleftrightarrow> map_of (storage agg data U) (d, sec) \<noteq> None"
    by (simp only: map_of_eq_None_iff not_not)
  then show ?thesis
    by (simp add: map_of_storage)
qed

lemma sec_dates_iff:
  "d \<in> set (sec_dates data sec) \<longleftrightarrow> (\<exists>x \<in> set data. ID x = sec \<and> DateTime x = d)"
  by (auto simp: sec_dates_def)

lemma all_secs_iff:
  "sec \<in> set (all_secs data U) \<longleftrightarrow> sec \<in> ID ` set data \<and> (U = [] \<or> sec \<in> set U)"
  by (auto simp: all_secs_def Let_def)

lemma filter_yearly_rows:
  "filter P (yearly_rows y data) = yearly_rows y (filter P data)"
  by (auto simp: yearly_rows_def intro: filter_cong)

lemma each_date_data_cutoff:
  "each_date_data data sec d = each_date_data (filter (\<lambda>x. DateTime x \<le> d) data) sec d"
proof -
  have "filter (\<lambda>r. DateTime r \<le> d) (filter (\<lambda>r. ID r = sec) data) =
        filter (\<lambda>r. DateTime r \<le> d)
          (filter (\<lambda>r. ID r = sec) (filter (\<lambda>x. DateTime x \<le> d) data))"
    by (induction data) auto
  then show ?thesis
    by (simp add: each_date_data_def Let_def)
qed

lemma storage_same_cutoff:
  assumes key: "(d, sec) \<in> fst ` set (storage agg (yearly_rows y data) U)"
    and same: "filter (\<lambda>x. DateTime x \<le> d) data' = filter (\<lambda>x. DateTime x \<le> d) data"
  shows "map_of (storage agg (yearly_rows y data') U) (d, sec) =
           map_of (storage agg (yearly_rows y data) U) (d, sec)"
proof -
  have cut: "filter (\<lambda>x. DateTime x \<le> d) (yearly_rows y data') =
             filter (\<lambda>x. DateTime x \<le> d) (yearly_rows y data)"
    by (simp add: filter_yearly_rows same)
  from key have sec: "sec \<in> set (all_secs (yearly_rows y data) U)"
    and d: "d \<in> set (sec_dates (yearly_rows y data) sec)"
    by (simp_all add: storage_key_iff)
  from d obtain x where x: "x \<in> set (yearly_rows y data)" "ID x = sec" "DateTime x = d"
    by (auto simp: sec_dates_iff)
  then have "x \<in> set (filter (\<lambda>x. DateTime x \<le> d) (yearly_rows y data))"
    by simp
  then have x': "x \<in> set (yearly_rows y data')"
    by (simp only: cut [symmetric]) simp
  have d': "d \<in> set (sec_dates (yearly_rows y data') sec)"
    using x' x by (auto simp: sec_dates_iff)
  have sec': "sec \<in> set (all_secs (yearly_rows y data') U)"
    using sec x' x by (auto simp: all_secs_iff)
  have "each_date_data (yearly_rows y data') sec d = each_date_data (yearly_rows y data) sec d"
    using each_date_data_cutoff [of "yearly_rows y data'" sec d]
      each_date_data_cutoff [of "yearly_rows y data" sec d]
    by (simp only: cut)
  then show ?thesis
    using sec d sec' d' by (simp add: map_of_storage)
qed

text \<open>
  Claim C1. Let (d, security) be a key the point-in-time build produces on the input
  rows. Then any input with the same rows observed up to \<open>d\<close> gives the same value at
  that key; in particular the value is unchanged by appending a row observed after \<open>d\<close>.
\<close>

theorem no_look_ahead:
  assumes "(d, sec) \<in> fst ` set (storage agg_func (yearly_rows yearly data) stock_list)"
  shows "(\<forall>data'. filter (\<lambda>x. DateTime x \<le> d) data' = filter (\<lambda>x. DateTime x \<le> d) data \<longrightarrow>
            map_of (storage agg_func (yearly_rows yearly data') stock_list) (d, sec) =
              map_of (storage agg_func (yearly_rows yearly data) stock_list) (d, sec))
       \<and> (\<forall>r. d < DateTime r \<longrightarrow>
            map_of (storage agg_func (yearly_rows yearly (data @ [r])) stock_list) (d, sec) =
              map_of (storage agg_func (yearly_rows yearly data) stock_list) (d, sec))"
proof -
  have "filter (\<lambda>x. DateTime x \<le> d) (data @ [r]) = filter (\<lambda>x. DateTime x \<le> d) data"
    if "d < DateTime r" for r :: "'a row"
    using that by simp
  then show ?thesis
    using storage_same_cutoff [OF assms] by blast
qed

theorem no_look_ahead_witness:
  "(feb1, sec_X) \<in> fst ` set (storage latest (yearly_rows True [row_feb]) [])
   \<and> feb1 < DateTime row_mar
   \<and> map_of (storage latest (yearly_rows True ([row_feb] @ [row_mar])) []) (feb1, sec_X)
       = Some (Some 5)
   \<and> map_of (storage latest (yearly_rows True [row_feb]) []) (feb1, sec_X) = Some (Some 5)"
proof -
  have k: "(feb1, sec_X) \<in> fst ` set (storage latest (yearly_rows True [row_feb]) [])"
    by (simp add: storage_key_iff all_secs_iff sec_dates_iff yearly_rows_def row_feb_def
        q4_def month_def)
  have l: "feb1 < DateTime row_mar"
    by (simp add: row_mar_def feb1_def mar1_def)
  have v: "map_of (storage latest (yearly_rows True [row_feb]) []) (feb1, sec_X) = Some (Some 5)"
    by (simp add: map_of_storage all_secs_iff sec_dates_iff yearly_rows_def each_date_data_def
        groupby_last_def last_valid_def latest_def row_feb_def q4_def month_def)
  have "map_of (storage latest (yearly_rows True ([row_feb] @ [row_mar])) []) (feb1, sec_X)
          = map_of (storage latest (yearly_rows True [row_feb]) []) (feb1, sec_X)"
    using no_look_ahead [OF k] l by blast
  then show ?thesis
    using k l v by (simp only: simp_thms)
qed

section \<open>The row kept for a report period\<close>

lemma sorted_map_le_last:
  "sorted (map f xs) \<Longrightarrow> x \<in> set xs \<Longrightarrow> f x \<le> f (last xs)"
  by (induction xs) (auto split: if_splits)

lemma last_valid_all_present:
  assumes "g \<noteq> []" "\<forall>r \<in> set g. val r \<noteq> None"
  shows "last_valid (map val g) = val (last g)"
proof -
  have "filter (\<lambda>v. v \<noteq> None) (map val g) = map val g"
    using assms(2) by (simp add: filter_id_conv)
  moreover have "map val g \<noteq> []"
    using assms(1) by simp
  ultimately have "last_valid (map val g) = last (map val g)"
    by (cases "map val g") (simp_all add: last_valid_def)
  then show ?thesis
    using assms(1) by (simp add: last_map)
qed

lemma groupby_last_row:
  assumes "k \<in> set (map period rows)" "\<forall>r \<in> set rows. val r \<noteq> None"
  shows "\<lparr>DateTime = DateTime (last (filter (\<lambda>r. period r = k) rows)),
          ID = ID (last (filter (\<lambda>r. period r = k) rows)), period = k,
          val = last_valid (map val (filter (\<lambda>r. period r = k) rows))\<rparr>
         = last (filter (\<lambda>r. period r = k) rows)"
proof -
  let ?g = "filter (\<lambda>r. period r = k) rows"
  have ne: "?g \<noteq> []"
    using assms(1) by (auto simp: filter_empty_conv)
  then have "last ?g \<in> set ?g"
    by (rule last_in_set)
  then have p: "period (last ?g) = k"
    by simp
  have "last_valid (map val ?g) = val (last ?g)"
    using ne assms(2) by (intro last_valid_all_present) auto
  then show ?thesis
    using p by simp
qed

lemma groupby_last_present:
  assumes "\<forall>r \<in> set rows. val r \<noteq> None"
  shows "groupby_last rows =
           map (\<lambda>k. last (filter (\<lambda>r. period r = k) rows)) (sort (remdups (map period rows)))"
  unfolding groupby_last_def Let_def
  by (rule map_cong [OF refl]) (use assms in \<open>simp add: groupby_last_row\<close>)

lemma groupby_last_periods: "map period (groupby_last rows) = sort (remdups (map period rows))"
  by (simp add: groupby_last_def Let_def comp_def)

lemma each_date_data_latest:
  assumes srt: "sorted (map DateTime (filter (\<lambda>r. ID r = sec) data))"
    and present: "\<forall>r \<in> set data. val r \<noteq> None"
    and g: "g \<in> set (each_date_data data sec d)"
  shows "g \<in> set data \<and> ID g = sec \<and> DateTime g \<le> d
       \<and> (\<forall>r \<in> set data. ID r = sec \<and> DateTime r \<le> d \<and> period r = period g
             \<longrightarrow> DateTime r \<le> DateTime g)"
proof -
  let ?rows = "filter (\<lambda>r. DateTime r \<le> d) (filter (\<lambda>r. ID r = sec) data)"
  have pres: "\<forall>r \<in> set ?rows. val r \<noteq> None"
    using present by simp
  from g obtain k where k: "k \<in> set (map period ?rows)"
    and gk: "g = last (filter (\<lambda>r. period r = k) ?rows)"
    unfolding each_date_data_def Let_def groupby_last_present [OF pres] by auto
  let ?grp = "filter (\<lambda>r. period r = k) ?rows"
  have ne: "?grp \<noteq> []"
    using k by (auto simp: filter_empty_conv)
  then have mem: "g \<in> set ?grp"
    unfolding gk by (rule last_in_set)
  have sorted_grp: "sorted (map DateTime ?grp)"
    by (rule sorted_filter [OF sorted_filter [OF srt]])
  have "DateTime r \<le> DateTime g"
    if "r \<in> set data" "ID r = sec" "DateTime r \<le> d" "period r = period g" for r
  proof -
    have "r \<in> set ?grp"
      using that mem by simp
    then show ?thesis
      unfolding gk by (rule sorted_map_le_last [OF sorted_grp])
  qed
  then show ?thesis
    using mem by auto
qed

lemma ex_storage:
  "storage latest (yearly_rows True [row_feb, row_mar]) []
     = [((feb1, sec_X), Some 5), ((mar1, sec_X), Some 7)]"
  by (simp add: storage_def sec_storage_def sec_dates_def all_secs_def each_date_data_def
      groupby_last_def last_valid_def latest_def yearly_rows_def row_feb_def row_mar_def
      q4_def month_def feb1_def mar1_def Let_def)

text \<open>
  Claim C2, as the code has it. \<open>groupby(...).last()\<close> keeps, for every report period, the
  last row in the order the rows were read. When the rows of the security are read in
  ascending order of observation date and no factor value is missing, every row kept as
  of \<open>d\<close> is an input row of the security observed by \<open>d\<close> whose observation date is the
  greatest among the rows of its report period observed by \<open>d\<close>, and exactly one row is
  kept for every such report period. With the aggregator \<open>latest\<close> the rows of the
  example give 5 as of February 1 and 7 as of March 1.
\<close>

theorem latest_restatement_kept:
  assumes "sorted (map DateTime (filter (\<lambda>r. ID r = sec) data))"
    and "\<forall>r \<in> set data. val r \<noteq> None"
  shows "(\<forall>g \<in> set (each_date_data data sec d).
            g \<in> set data \<and> ID g = sec \<and> DateTime g \<le> d
            \<and> (\<forall>r \<in> set data. ID r = sec \<and> DateTime r \<le> d \<and> period r = period g
                  \<longrightarrow> DateTime r \<le> DateTime g))
       \<and> map period (each_date_data data sec d)
           = sort (remdups (map period
               (filter (\<lambda>r. DateTime r \<le> d) (filter (\<lambda>r. ID r = sec) data))))
       \<and> map_of (storage latest (yearly_rows True [row_feb, row_mar]) []) (feb1, sec_X)
           = Some (Some 5)
       \<and> map_of (storage latest (yearly_rows True [row_feb, row_mar]) []) (mar1, sec_X)
           = Some (Some 7)"
proof -
  have "map period (each_date_data data sec d)
          = sort (remdups (map period
              (filter (\<lambda>r. DateTime r \<le> d) (filter (\<lambda>r. ID r = sec) data))))"
    by (simp add: each_date_data_def Let_def groupby_last_periods)
  moreover have "feb1 \<noteq> mar1"
    by (simp add: feb1_def mar1_def)
  ultimately show ?thesis
    using each_date_data_latest [OF assms, of _ d]
    by (simp add: ex_storage)
qed

theorem latest_restatement_kept_witness:
  "sorted (map DateTime (filter (\<lambda>r. ID r = sec_X) [row_feb, row_mar]))
   \<and> val row_feb \<noteq> None \<and> val row_mar \<noteq> None
   \<and> each_date_data [row_feb, row_mar] sec_X mar1 = [row_mar]
   \<and> row_mar \<in> set [row_feb, row_mar] \<and> ID row_mar = sec_X \<and> DateTime row_mar \<le> mar1
   \<and> DateTime row_feb \<le> DateTime row_mar"
proof -
  have s: "sorted (map DateTime (filter (\<lambda>r. ID r = sec_X) [row_feb, row_mar]))"
    by (simp add: row_feb_def row_mar_def feb1_def mar1_def)
  have p: "\<forall>r \<in> set [row_feb, row_mar]. val r \<noteq> None"
    by (simp add: row_feb_def row_mar_def)
  have e: "each_date_data [row_feb, row_mar] sec_X mar1 = [row_mar]"
    by (simp add: each_date_data_def groupby_last_def last_valid_def row_feb_def row_mar_def
        feb1_def mar1_def Let_def)
  have f: "ID row_feb = sec_X \<and> DateTime row_feb \<le> mar1 \<and> period row_feb = period row_mar"
    by (simp add: row_feb_def row_mar_def feb1_def mar1_def)
  show ?thesis
    using s p e f latest_restatement_kept [OF s p, of mar1]
    by simp
qed

text \<open>
  The claim as written keeps the row with the greatest observation date whatever the
  order of the rows. Read in the opposite order, the rows of the example keep the row of
  February 1 as of March 1, and the value is 5. And when the restated value of March 1
  is missing, the row kept as of March 1 carries the value 5 of February 1.
\<close>

theorem latest_restatement_kept_counterexample:
  "each_date_data [row_mar, row_feb] sec_X mar1 = [row_feb]
   \<and> DateTime row_feb < DateTime row_mar
   \<and> map_of (storage latest (yearly_rows True [row_mar, row_feb]) []) (mar1, sec_X)
       = Some (Some 5)
   \<and> each_date_data [row_feb, row_mar\<lparr>val := None\<rparr>] sec_X mar1 = [row_mar\<lparr>val := Some 5\<rparr>]"
  by (simp add: storage_def sec_storage_def sec_dates_def all_secs_def each_date_data_def
      groupby_last_def last_valid_def latest_def yearly_rows_def row_feb_def row_mar_def
      q4_def month_def feb1_def mar1_def sec_X_def Let_def)

section \<open>Forward fill\<close>










section \<open>Reading rows at column labels\<close>




lemma length_take_columns: "length (take_columns L cols r) = length L"
  by (simp add: take_columns_def)



section \<open>Rows of a calendar window\<close>















end
